theory Spec2Isabelle
  imports Main "HOL-Library.Word"
begin

section \<open>The MessageToken ledger contract\<close>

text \<open>
  The ledger is the Solidity contract \<^verbatim>\<open>MessageToken\<close> (\<^verbatim>\<open>pragma solidity ^0.4.8\<close>) kept in
  \<^verbatim>\<open>src/src/modules/LoadingScreen.js\<close>, lines 190 to 395. Its integers are \<^verbatim>\<open>uint256\<close>:
  \<^verbatim>\<open>+\<close>, \<^verbatim>\<open>-\<close> and \<^verbatim>\<open>*\<close> are unchecked in this compiler series and wrap around modulo
  \<open>2 ^ 256\<close>, which is the arithmetic of \<open>256 word\<close>. A \<^verbatim>\<open>mapping\<close> has a value for every key,
  zero by default, so it is a total function. A failed \<^verbatim>\<open>require\<close> discards every change of
  the call: a call returns either an error or the new state.
\<close>

subsection \<open>Data\<close>

type_synonym u256 = "256 word"
type_synonym address = "160 word"

text \<open>The event \<^verbatim>\<open>Transfer(from, to, value)\<close> that \<^verbatim>\<open>claim\<close> emits.\<close>

datatype event = Transfer address address u256

text \<open>
  The storage of the contract. \<^verbatim>\<open>balances\<close> and \<^verbatim>\<open>totalSupply\<close> are declared in
  \<^verbatim>\<open>BaseToken.sol\<close>, which is not among the sources; they are taken with the types the
  contract uses them at. The other fields are the state variables of \<^verbatim>\<open>MessageToken\<close>
  in the order of their declaration; \<open>events\<close> is the log of emitted events.
\<close>

record MessageToken =
  balances :: "address \<Rightarrow> u256"
  totalSupply :: u256
  name :: string
  decimals :: "8 word"
  symbol :: string
  version :: string
  owner :: address
  dailyTokens :: u256
  tokensPerMessage :: u256
  lastClaimed :: "address \<Rightarrow> u256"
  messageHistory :: "address \<Rightarrow> u256 list"
  blocksPerClaim :: u256
  ipfsHash :: string
  latestMessage :: string
  events :: "event list"

text \<open>
  What a call reads from its environment: the address of the contract itself
  (\<^verbatim>\<open>this\<close>), the caller (\<^verbatim>\<open>msg.sender\<close>) and the height of the block (\<^verbatim>\<open>block.number\<close>).
\<close>

record call =
  this :: address
  msg_sender :: address
  block_number :: u256

text \<open>
  Why a call is abandoned. The two \<^verbatim>\<open>require\<close> statements of the contract carry no
  message; the constructors \<open>Unauthorized\<close> and \<open>InsufficientFunds\<close> record which of the two
  guards failed. \<open>AssertionFailed\<close> and \<open>DivisionByZero\<close> are the failures of the arithmetic
  helpers.
\<close>

datatype error = Unauthorized | InsufficientFunds | AssertionFailed | DivisionByZero

subsection \<open>SafeMath\<close>

text \<open>
  Modelled from the spec: \<^verbatim>\<open>SafeMath.sol\<close>, whose \<^verbatim>\<open>sub\<close> and \<^verbatim>\<open>div\<close> the contract calls, is
  imported by the contract but is not among the sources. The spec reads \<^verbatim>\<open>a.sub(b)\<close> as
  the difference \<open>a - b\<close>, used where it cannot go below zero, and \<^verbatim>\<open>a.div(b)\<close> as
  \<open>floor (a / b)\<close>. Outside these the helpers abandon the call: a subtraction below zero
  fails the helper's assertion, and a zero divisor is a runtime exception of the
  \<^verbatim>\<open>/\<close> of Solidity itself.
\<close>

definition SafeMath_sub :: "u256 \<Rightarrow> u256 \<Rightarrow> error + u256" where
  "SafeMath_sub a b = (if b \<le> a then Inr (a - b) else Inl AssertionFailed)"

definition SafeMath_div :: "u256 \<Rightarrow> u256 \<Rightarrow> error + u256" where
  "SafeMath_div a b = (if b = 0 then Inl DivisionByZero else Inr (a div b))"

subsection \<open>Creation\<close>

text \<open>
  The storage right after deployment: every variable has its declared initial value, or
  the zero of its type. \<^verbatim>\<open>MessageToken\<close> declares no function of its own name, so nothing
  else runs at deployment.
\<close>

definition deployed :: MessageToken where
  "deployed =
     \<lparr> balances = (\<lambda>_. 0), totalSupply = 0, name = [], decimals = 0, symbol = [],
       version = ''MSG'', owner = 0, dailyTokens = 12, tokensPerMessage = 3,
       lastClaimed = (\<lambda>_. 0), messageHistory = (\<lambda>_. []), blocksPerClaim = 100,
       ipfsHash = [], latestMessage = [], events = [] \<rparr>"

text \<open>
  \<^verbatim>\<open>function UsableToken(...) public\<close>, lines 234 to 246. The contract is called
  \<^verbatim>\<open>MessageToken\<close>, so in Solidity 0.4 this function is not its constructor: it is a
  public function like the others, and it has no guard.
\<close>

definition UsableToken ::
    "call \<Rightarrow> u256 \<Rightarrow> string \<Rightarrow> 8 word \<Rightarrow> string \<Rightarrow> MessageToken \<Rightarrow> MessageToken" where
  "UsableToken c initialAmount tokenName decimalUnits tokenSymbol s =
     s \<lparr> owner := msg_sender c,
         balances := (balances s)(this c := initialAmount),
         totalSupply := initialAmount,
         name := tokenName,
         decimals := decimalUnits,
         symbol := tokenSymbol \<rparr>"

subsection \<open>Configuration\<close>

text \<open>\<^verbatim>\<open>changeBlocksPerClaim\<close>, lines 252 to 255.\<close>

definition changeBlocksPerClaim :: "call \<Rightarrow> u256 \<Rightarrow> MessageToken \<Rightarrow> error + MessageToken" where
  "changeBlocksPerClaim c newBPC s =
     (if msg_sender c = owner s then Inr (s \<lparr> blocksPerClaim := newBPC \<rparr>)
      else Inl Unauthorized)"

definition getBlocksPerClaim :: "MessageToken \<Rightarrow> u256" where
  "getBlocksPerClaim s = blocksPerClaim s"

definition getTokensPerMessage :: "MessageToken \<Rightarrow> u256" where
  "getTokensPerMessage s = tokensPerMessage s"

definition getDailyTokensNo :: "MessageToken \<Rightarrow> u256" where
  "getDailyTokensNo s = dailyTokens s"

subsection \<open>Claims\<close>

text \<open>\<^verbatim>\<open>getBlocksTillClaimable\<close>, lines 262 to 274.\<close>

definition getBlocksTillClaimable :: "call \<Rightarrow> address \<Rightarrow> MessageToken \<Rightarrow> error + u256" where
  "getBlocksTillClaimable c addr s =
     (if lastClaimed s addr = 0 then Inr 0
      else
        let blockDiff = block_number c - lastClaimed s addr - 1 in
        if blockDiff < blocksPerClaim s then SafeMath_sub (blocksPerClaim s) blockDiff
        else Inr 0)"

definition getLastClaimedBlock :: "address \<Rightarrow> MessageToken \<Rightarrow> u256" where
  "getLastClaimedBlock addr s = lastClaimed s addr"

definition getMessageHistory :: "address \<Rightarrow> MessageToken \<Rightarrow> u256 list" where
  "getMessageHistory addr s = messageHistory s addr"

text \<open>\<^verbatim>\<open>getClaimableTokens\<close>, lines 323 to 333.\<close>

definition getClaimableTokens :: "call \<Rightarrow> address \<Rightarrow> MessageToken \<Rightarrow> error + u256" where
  "getClaimableTokens c addr s =
     (if lastClaimed s addr = 0 then Inr (dailyTokens s)
      else
        case SafeMath_div (block_number c - lastClaimed s addr - 1) (blocksPerClaim s) of
          Inl e \<Rightarrow> Inl e
        | Inr multiples \<Rightarrow> Inr (multiples * dailyTokens s))"

text \<open>
  \<^verbatim>\<open>claim\<close>, lines 340 to 353. The result is the returned boolean with the new state.
  The two updates of \<^verbatim>\<open>balances\<close> are the unguarded \<^verbatim>\<open>+=\<close> and \<^verbatim>\<open>-=\<close> of the source, one
  after the other.
\<close>

definition claim :: "call \<Rightarrow> MessageToken \<Rightarrow> error + (bool \<times> MessageToken)" where
  "claim c s =
     (if block_number c - lastClaimed s (msg_sender c) - 1 < blocksPerClaim s
      then Inr (False, s)
      else
        case getClaimableTokens c (msg_sender c) s of
          Inl e \<Rightarrow> Inl e
        | Inr val \<Rightarrow>
            let s1 = s \<lparr> lastClaimed := (lastClaimed s)(msg_sender c := block_number c - 1) \<rparr>;
                s2 = s1 \<lparr> balances :=
                            (balances s1)(msg_sender c := balances s1 (msg_sender c) + val) \<rparr>;
                s3 = s2 \<lparr> balances := (balances s2)(this c := balances s2 (this c) - val) \<rparr>;
                s4 = s3 \<lparr> events := events s3 @ [Transfer (this c) (msg_sender c) val] \<rparr>
            in Inr (True, s4))"

subsection \<open>Messages\<close>

text \<open>\<^verbatim>\<open>sendMessage\<close>, lines 359 to 368.\<close>

definition sendMessage :: "call \<Rightarrow> string \<Rightarrow> MessageToken \<Rightarrow> error + MessageToken" where
  "sendMessage c message s =
     (if \<not> tokensPerMessage s \<le> balances s (msg_sender c) then Inl InsufficientFunds
      else
        let s1 = s \<lparr> messageHistory :=
                       (messageHistory s)(msg_sender c :=
                          messageHistory s (msg_sender c) @ [block_number c - 1]) \<rparr>;
            s2 = s1 \<lparr> balances :=
                        (balances s1)(msg_sender c :=
                           balances s1 (msg_sender c) - tokensPerMessage s1) \<rparr>;
            s3 = s2 \<lparr> balances :=
                        (balances s2)(this c := balances s2 (this c) + tokensPerMessage s2) \<rparr>
        in Inr (s3 \<lparr> latestMessage := message \<rparr>))"

definition getMessage :: "MessageToken \<Rightarrow> string" where
  "getMessage s = latestMessage s"

text \<open>\<^verbatim>\<open>sendHash\<close> and \<^verbatim>\<open>getHash\<close>, lines 383 to 394. \<^verbatim>\<open>sendHash\<close> has no guard.\<close>

definition sendHash :: "call \<Rightarrow> string \<Rightarrow> MessageToken \<Rightarrow> MessageToken" where
  "sendHash c hash s = s \<lparr> ipfsHash := hash \<rparr>"

definition getHash :: "MessageToken \<Rightarrow> string" where
  "getHash s = ipfsHash s"

definition balanceOf :: "address \<Rightarrow> MessageToken \<Rightarrow> u256" where
  "balanceOf a s = balances s a"

subsection \<open>Transactions\<close>

text \<open>
  The public functions of the contract that change its storage, as one type, and the
  effect of one transaction: the state the call returns, or the state before it when the
  call is abandoned.
\<close>

datatype operation =
    OpUsableToken u256 string "8 word" string
  | OpChangeBlocksPerClaim u256
  | OpClaim
  | OpSendMessage string
  | OpSendHash string

fun perform :: "call \<Rightarrow> operation \<Rightarrow> MessageToken \<Rightarrow> error + MessageToken" where
  "perform c (OpUsableToken n tn d ts) s = Inr (UsableToken c n tn d ts s)"
| "perform c (OpChangeBlocksPerClaim b) s = changeBlocksPerClaim c b s"
| "perform c OpClaim s = map_sum id snd (claim c s)"
| "perform c (OpSendMessage m) s = sendMessage c m s"
| "perform c (OpSendHash h) s = Inr (sendHash c h s)"

definition transact :: "call \<Rightarrow> operation \<Rightarrow> MessageToken \<Rightarrow> MessageToken" where
  "transact c op s = (case perform c op s of Inl e \<Rightarrow> s | Inr s' \<Rightarrow> s')"

fun run :: "(call \<times> operation) list \<Rightarrow> MessageToken \<Rightarrow> MessageToken" where
  "run [] s = s"
| "run ((c, op) # rest) s = run rest (transact c op s)"

subsection \<open>The supply\<close>

text \<open>
  The sum of all balances as a natural number; the reserve is the balance of the
  contract's own address, so it is one of the summands. The invariant of a token: the
  balances sum up to \<^verbatim>\<open>totalSupply\<close>.
\<close>

definition sum_unat :: "(address \<Rightarrow> u256) \<Rightarrow> nat" where
  "sum_unat f = (\<Sum>a\<in>UNIV. unat (f a))"

definition sum_balances :: "MessageToken \<Rightarrow> nat" where
  "sum_balances s = sum_unat (balances s)"

definition supply_invariant :: "MessageToken \<Rightarrow> bool" where
  "supply_invariant s = (sum_balances s = unat (totalSupply s))"

subsection \<open>A ledger to run\<close>

text \<open>
  The concrete calls and the concrete ledger of the examples below: the contract lives at
  address 100; the account 2 has called \<^verbatim>\<open>UsableToken\<close> at height 10 with an initial amount
  of 1000, the parameters being the declared ones (12 tokens a claim, 3 tokens a
  message, 100 blocks between claims).
\<close>

abbreviation call_at :: "u256 \<Rightarrow> address \<Rightarrow> call" where
  "call_at n who \<equiv> \<lparr> this = 100, msg_sender = who, block_number = n \<rparr>"

abbreviation funded :: MessageToken where
  "funded \<equiv> UsableToken (call_at 10 2) 1000 ''Message'' 0 ''MSG'' deployed"

text \<open>The same ledger with an initial amount of 5, less than one claim grants.\<close>

abbreviation meagre :: MessageToken where
  "meagre \<equiv> UsableToken (call_at 10 2) 5 ''Message'' 0 ''MSG'' deployed"

section \<open>Sums over all addresses\<close>

text \<open>
  The addresses are finitely many, so a sum over all of them splits off the one entry an
  update touches.
\<close>

lemma sum_unat_upd:
  fixes f :: "address \<Rightarrow> u256"
  shows "(\<Sum>x\<in>UNIV. unat ((f(a := v)) x)) + unat (f a) = (\<Sum>x\<in>UNIV. unat (f x)) + unat v"
proof -
  have fin: "finite (UNIV :: address set)" by simp
  have 1: "(\<Sum>x\<in>UNIV. unat ((f(a := v)) x)) = unat v + (\<Sum>x\<in>UNIV - {a}. unat ((f(a := v)) x))"
    using sum.remove [OF fin, of a "\<lambda>x. unat ((f(a := v)) x)"] by simp
  have 2: "(\<Sum>x\<in>UNIV. unat (f x)) = unat (f a) + (\<Sum>x\<in>UNIV - {a}. unat (f x))"
    using sum.remove [OF fin, of a "\<lambda>x. unat (f x)"] by simp
  have 3: "(\<Sum>x\<in>UNIV - {a}. unat ((f(a := v)) x)) = (\<Sum>x\<in>UNIV - {a}. unat (f x))"
    by (rule sum.cong) auto
  show ?thesis using 1 2 3 by simp
qed

lemma sum_word_upd:
  fixes f :: "address \<Rightarrow> u256"
  shows "(\<Sum>x\<in>UNIV. (f(a := v)) x) = (\<Sum>x\<in>UNIV. f x) - f a + v"
proof -
  have fin: "finite (UNIV :: address set)" by simp
  have 1: "(\<Sum>x\<in>UNIV. (f(a := v)) x) = v + (\<Sum>x\<in>UNIV - {a}. (f(a := v)) x)"
    using sum.remove [OF fin, of a "f(a := v)"] by simp
  have 2: "(\<Sum>x\<in>UNIV. f x) = f a + (\<Sum>x\<in>UNIV - {a}. f x)"
    using sum.remove [OF fin, of a f] by simp
  have 3: "(\<Sum>x\<in>UNIV - {a}. (f(a := v)) x) = (\<Sum>x\<in>UNIV - {a}. f x)"
    by (rule sum.cong) auto
  show ?thesis using 1 2 3 by simp
qed

lemma of_nat_sum_unat:
  fixes f :: "address \<Rightarrow> u256"
  shows "(of_nat (\<Sum>x\<in>UNIV. unat (f x)) :: u256) = (\<Sum>x\<in>UNIV. f x)"
  by simp

lemma unat_word_sum:
  fixes f :: "address \<Rightarrow> u256"
  shows "unat (\<Sum>x\<in>UNIV. f x) = (\<Sum>x\<in>UNIV. unat (f x)) mod 2 ^ 256"
proof -
  have "unat (of_nat (\<Sum>x\<in>UNIV. unat (f x)) :: u256) = (\<Sum>x\<in>UNIV. unat (f x)) mod 2 ^ LENGTH(256)"
    by (rule unat_of_nat)
  then show ?thesis unfolding of_nat_sum_unat by simp
qed

lemma sum_balances_mod: "sum_balances s mod 2 ^ 256 = unat (\<Sum>a\<in>UNIV. balances s a)"
  by (simp only: sum_balances_def sum_unat_def unat_word_sum)

lemma two_entries_le_sum:
  fixes f :: "address \<Rightarrow> u256"
  assumes "a \<noteq> b"
  shows "unat (f a) + unat (f b) \<le> sum_unat f"
proof -
  have "(\<Sum>x\<in>{a, b}. unat (f x)) \<le> (\<Sum>x\<in>UNIV. unat (f x))"
    by (rule sum_mono2) auto
  then show ?thesis using assms by (simp add: sum_unat_def)
qed

text \<open>The sum of a table given by its updates, for running the examples.\<close>

lemma sum_unat_zero: "sum_unat (\<lambda>_. 0) = 0"
  by (simp add: sum_unat_def)

lemma sum_unat_fun_upd: "sum_unat (f(a := v)) = sum_unat f + unat v - unat (f a)"
  using sum_unat_upd [of f a v] by (simp add: sum_unat_def)

lemmas run_simps =
  transact_def claim_def getClaimableTokens_def SafeMath_div_def sendMessage_def
  changeBlocksPerClaim_def UsableToken_def sendHash_def deployed_def Let_def

text \<open>
  Moving an amount from one entry to another, each update wrapping around on its own,
  keeps the sum in \<^verbatim>\<open>uint256\<close>.
\<close>

lemma sum_word_move:
  fixes f :: "address \<Rightarrow> u256"
  shows "(\<Sum>x\<in>UNIV. (((f(a := f a + v))(b := (f(a := f a + v)) b - v)) x)) = (\<Sum>x\<in>UNIV. f x)"
  by (simp only: sum_word_upd) simp

lemma sum_word_move_back:
  fixes f :: "address \<Rightarrow> u256"
  shows "(\<Sum>x\<in>UNIV. (((f(a := f a - v))(b := (f(a := f a - v)) b + v)) x)) = (\<Sum>x\<in>UNIV. f x)"
  by (simp only: sum_word_upd) simp

text \<open>What a successful call leaves behind, written out once for the proofs below.\<close>

lemma claim_True:
  assumes "claim c s = Inr (True, s')"
  shows "\<exists>val. getClaimableTokens c (msg_sender c) s = Inr val \<and>
           \<not> block_number c - lastClaimed s (msg_sender c) - 1 < blocksPerClaim s \<and>
           s' = s \<lparr> lastClaimed := (lastClaimed s)(msg_sender c := block_number c - 1),
                    balances := ((balances s)(msg_sender c := balances s (msg_sender c) + val))
                       (this c := ((balances s)(msg_sender c := balances s (msg_sender c) + val)) (this c) - val),
                    events := events s @ [Transfer (this c) (msg_sender c) val] \<rparr>"
  using assms by (auto simp: claim_def Let_def split: if_splits sum.splits)

lemma sendMessage_Inr:
  assumes "sendMessage c m s = Inr s'"
  shows "tokensPerMessage s \<le> balances s (msg_sender c) \<and>
         s' = s \<lparr> messageHistory := (messageHistory s)(msg_sender c :=
                          messageHistory s (msg_sender c) @ [block_number c - 1]),
                  balances := ((balances s)(msg_sender c := balances s (msg_sender c) - tokensPerMessage s))
                       (this c := ((balances s)(msg_sender c := balances s (msg_sender c) - tokensPerMessage s)) (this c) + tokensPerMessage s),
                  latestMessage := m \<rparr>"
  using assms by (auto simp: sendMessage_def Let_def split: if_splits)

section \<open>The cooldown of claim\<close>

lemma claim_gate_closed:
  "block_number c - lastClaimed s (msg_sender c) - 1 < blocksPerClaim s \<Longrightarrow>
     claim c s = Inr (False, s)"
  by (simp add: claim_def)

lemma claim_True_fields:
  assumes "claim c s = Inr (True, s')"
  shows "lastClaimed s' (msg_sender c) = block_number c - 1"
    and "blocksPerClaim s' = blocksPerClaim s"
    and "owner s' = owner s"
    and "totalSupply s' = totalSupply s"
  using claim_True [OF assms] by auto

text \<open>
  Claim C5. Whenever \<^verbatim>\<open>block.number - lastClaimed[msg.sender] - 1 < blocksPerClaim\<close>, in the
  arithmetic of \<^verbatim>\<open>uint256\<close>, \<^verbatim>\<open>claim\<close> returns \<^verbatim>\<open>false\<close>, which is not an error, and the
  whole state is as before. In particular, after a successful \<^verbatim>\<open>claim\<close> at height \<open>h\<close>, a
  second \<^verbatim>\<open>claim\<close> of the same caller at a height \<open>h'\<close> with \<open>h \<le> h'\<close> and
  \<open>h' - h < blocksPerClaim\<close> returns \<^verbatim>\<open>false\<close> and changes nothing.
\<close>

theorem claim_before_cooldown_fails:
  "(block_number c - lastClaimed s (msg_sender c) - 1 < blocksPerClaim s \<longrightarrow>
      claim c s = Inr (False, s) \<and> transact c OpClaim s = s) \<and>
   (claim c s = Inr (True, s') \<and> msg_sender c' = msg_sender c \<and>
    block_number c \<le> block_number c' \<and>
    unat (block_number c') - unat (block_number c) < unat (blocksPerClaim s) \<longrightarrow>
      claim c' s' = Inr (False, s') \<and> transact c' OpClaim s' = s')"
proof (intro conjI impI)
  assume "block_number c - lastClaimed s (msg_sender c) - 1 < blocksPerClaim s"
  then have f: "claim c s = Inr (False, s)" by (rule claim_gate_closed)
  then show "claim c s = Inr (False, s)" .
  from f show "transact c OpClaim s = s" by (simp add: transact_def)
next
  assume h: "claim c s = Inr (True, s') \<and> msg_sender c' = msg_sender c \<and>
    block_number c \<le> block_number c' \<and>
    unat (block_number c') - unat (block_number c) < unat (blocksPerClaim s)"
  then have ok: "claim c s = Inr (True, s')" by blast
  have lc: "lastClaimed s' (msg_sender c') = block_number c - 1"
    using claim_True_fields(1) [OF ok] h by simp
  have bpc: "blocksPerClaim s' = blocksPerClaim s"
    by (rule claim_True_fields(2) [OF ok])
  have d: "block_number c' - lastClaimed s' (msg_sender c') - 1 = block_number c' - block_number c"
    by (simp add: lc)
  have "unat (block_number c' - block_number c) = unat (block_number c') - unat (block_number c)"
    using h by (simp add: unat_sub)
  then have "block_number c' - block_number c < blocksPerClaim s"
    using h by (simp add: word_less_nat_alt)
  then have g: "block_number c' - lastClaimed s' (msg_sender c') - 1 < blocksPerClaim s'"
    by (simp only: d bpc)
  then have f: "claim c' s' = Inr (False, s')" by (rule claim_gate_closed)
  then show "claim c' s' = Inr (False, s')" .
  from f show "transact c' OpClaim s' = s'" by (simp add: transact_def)
qed

theorem claim_before_cooldown_fails_witness:
  "claim (call_at 1000 1) funded
     = Inr (True, transact (call_at 1000 1) OpClaim funded) \<and>
   claim (call_at 1050 1)
       (transact (call_at 1000 1) OpClaim funded)
     = Inr (False, transact (call_at 1000 1) OpClaim funded) \<and>
   claim (call_at 50 1) funded = Inr (False, funded)"
proof -
  let ?c = "call_at 1000 1"
  let ?d = "call_at 1050 1"
  let ?e = "call_at 50 1"
  have 1: "claim ?c funded = Inr (True, transact ?c OpClaim funded)"
    by (simp add: run_simps)
  have 2: "msg_sender ?d = msg_sender ?c \<and> block_number ?c \<le> block_number ?d \<and>
           unat (block_number ?d) - unat (block_number ?c) < unat (blocksPerClaim funded)"
    by (simp add: run_simps)
  have 3: "block_number ?e - lastClaimed funded (msg_sender ?e) - 1 < blocksPerClaim funded"
    by (simp add: run_simps)
  from claim_before_cooldown_fails [of ?c funded "transact ?c OpClaim funded" ?d] 1 2
  have 4: "claim ?d (transact ?c OpClaim funded) = Inr (False, transact ?c OpClaim funded)"
    by blast
  from claim_before_cooldown_fails [of ?e funded] 3
  have 5: "claim ?e funded = Inr (False, funded)"
    by blast
  show ?thesis using 1 4 5 by blast
qed


section \<open>The room content pointer\<close>

text \<open>
  Claim C9. For every caller and every string, \<^verbatim>\<open>sendHash\<close> succeeds: it has no guard, takes
  no fee and cannot be abandoned. It overwrites the field that \<^verbatim>\<open>getHash\<close> returns and leaves
  every other field as it was: balances, claim heights, send histories, the latest
  message pointer, the owner and the three parameters.
\<close>

theorem sendHash_frame:
  "getHash (sendHash c h s) = h \<and>
   balances (sendHash c h s) = balances s \<and>
   totalSupply (sendHash c h s) = totalSupply s \<and>
   lastClaimed (sendHash c h s) = lastClaimed s \<and>
   messageHistory (sendHash c h s) = messageHistory s \<and>
   latestMessage (sendHash c h s) = latestMessage s \<and>
   getMessage (sendHash c h s) = getMessage s \<and>
   owner (sendHash c h s) = owner s \<and>
   dailyTokens (sendHash c h s) = dailyTokens s \<and>
   tokensPerMessage (sendHash c h s) = tokensPerMessage s \<and>
   blocksPerClaim (sendHash c h s) = blocksPerClaim s \<and>
   name (sendHash c h s) = name s \<and>
   decimals (sendHash c h s) = decimals s \<and>
   symbol (sendHash c h s) = symbol s \<and>
   version (sendHash c h s) = version s \<and>
   events (sendHash c h s) = events s \<and>
   sendHash c h s = s \<lparr> ipfsHash := h \<rparr> \<and>
   perform c (OpSendHash h) s = Inr (sendHash c h s)"
  by (simp add: sendHash_def getHash_def getMessage_def)

section \<open>The sum of the balances modulo \<open>2 ^ 256\<close>\<close>

text \<open>
  Claim C10. Every successful \<^verbatim>\<open>claim\<close> and every successful \<^verbatim>\<open>sendMessage\<close> keeps the sum of
  all balances, the contract's own among them, modulo \<open>2 ^ 256\<close>, also when a single
  update wraps around. \<^verbatim>\<open>claim\<close> adds the granted value to the caller's balance and then
  subtracts the same value from the balance of the contract, each unchecked;
  \<^verbatim>\<open>sendMessage\<close> moves \<^verbatim>\<open>tokensPerMessage\<close> the other way.
\<close>

theorem claim_sendMessage_keep_sum_mod:
  "(claim c s = Inr (True, s') \<longrightarrow>
      sum_balances s' mod 2 ^ 256 = sum_balances s mod 2 ^ 256 \<and>
      (\<exists>val. getClaimableTokens c (msg_sender c) s = Inr val \<and>
         balances s' =
           ((balances s)(msg_sender c := balances s (msg_sender c) + val))
             (this c := ((balances s)(msg_sender c := balances s (msg_sender c) + val)) (this c) - val))) \<and>
   (sendMessage c m s = Inr s'' \<longrightarrow>
      sum_balances s'' mod 2 ^ 256 = sum_balances s mod 2 ^ 256 \<and>
      balances s'' =
        ((balances s)(msg_sender c := balances s (msg_sender c) - tokensPerMessage s))
          (this c := ((balances s)(msg_sender c := balances s (msg_sender c) - tokensPerMessage s)) (this c)
                       + tokensPerMessage s))"
proof (intro conjI impI)
  assume a: "claim c s = Inr (True, s')"
  from claim_True [OF a] obtain val where
    v: "getClaimableTokens c (msg_sender c) s = Inr val" and
    s': "s' = s \<lparr> lastClaimed := (lastClaimed s)(msg_sender c := block_number c - 1),
                    balances := ((balances s)(msg_sender c := balances s (msg_sender c) + val))
                       (this c := ((balances s)(msg_sender c := balances s (msg_sender c) + val)) (this c) - val),
                    events := events s @ [Transfer (this c) (msg_sender c) val] \<rparr>"
    by blast
  have b: "balances s' = ((balances s)(msg_sender c := balances s (msg_sender c) + val))
             (this c := ((balances s)(msg_sender c := balances s (msg_sender c) + val)) (this c) - val)"
    by (simp add: s')
  show "sum_balances s' mod 2 ^ 256 = sum_balances s mod 2 ^ 256"
    by (simp only: sum_balances_mod b sum_word_move)
  show "\<exists>val. getClaimableTokens c (msg_sender c) s = Inr val \<and>
         balances s' =
           ((balances s)(msg_sender c := balances s (msg_sender c) + val))
             (this c := ((balances s)(msg_sender c := balances s (msg_sender c) + val)) (this c) - val)"
    using v b by blast
next
  assume a: "sendMessage c m s = Inr s''"
  from sendMessage_Inr [OF a] have
    b: "balances s'' =
        ((balances s)(msg_sender c := balances s (msg_sender c) - tokensPerMessage s))
          (this c := ((balances s)(msg_sender c := balances s (msg_sender c) - tokensPerMessage s)) (this c)
                       + tokensPerMessage s)"
    by simp
  show "sum_balances s'' mod 2 ^ 256 = sum_balances s mod 2 ^ 256"
    by (simp only: sum_balances_mod b sum_word_move_back)
  show "balances s'' =
        ((balances s)(msg_sender c := balances s (msg_sender c) - tokensPerMessage s))
          (this c := ((balances s)(msg_sender c := balances s (msg_sender c) - tokensPerMessage s)) (this c)
                       + tokensPerMessage s)"
    by (rule b)
qed

theorem claim_sendMessage_keep_sum_mod_witness:
  "claim (call_at 1000 1) meagre
     = Inr (True, transact (call_at 1000 1) OpClaim meagre) \<and>
   sendMessage (call_at 1001 1) ''Qm''
       (transact (call_at 1000 1) OpClaim meagre)
     = Inr (run [(call_at 1000 1, OpClaim),
                 (call_at 1001 1, OpSendMessage ''Qm'')] meagre) \<and>
   balances (transact (call_at 1000 1) OpClaim meagre) 100 = - 7 \<and>
   sum_balances (transact (call_at 1000 1) OpClaim meagre) mod 2 ^ 256
     = sum_balances meagre mod 2 ^ 256 \<and>
   sum_balances (run [(call_at 1000 1, OpClaim),
                 (call_at 1001 1, OpSendMessage ''Qm'')] meagre) mod 2 ^ 256
     = sum_balances (transact (call_at 1000 1) OpClaim meagre) mod 2 ^ 256"
proof -
  let ?c = "call_at 1000 1"
  let ?d = "call_at 1001 1"
  have 1: "claim ?c meagre = Inr (True, transact ?c OpClaim meagre)"
    by (simp add: run_simps)
  have 2: "sendMessage ?d ''Qm'' (transact ?c OpClaim meagre)
            = Inr (run [(?c, OpClaim), (?d, OpSendMessage ''Qm'')] meagre)"
    by (simp add: run_simps)
  have 3: "balances (transact ?c OpClaim meagre) 100 = - 7"
    by (simp add: run_simps)
  from claim_sendMessage_keep_sum_mod [of ?c meagre "transact ?c OpClaim meagre"] 1
  have 4: "sum_balances (transact ?c OpClaim meagre) mod 2 ^ 256 = sum_balances meagre mod 2 ^ 256"
    by blast
  from claim_sendMessage_keep_sum_mod [of ?d "transact ?c OpClaim meagre" _ "''Qm''"
      "run [(?c, OpClaim), (?d, OpSendMessage ''Qm'')] meagre"] 2
  have 5: "sum_balances (run [(?c, OpClaim), (?d, OpSendMessage ''Qm'')] meagre) mod 2 ^ 256
     = sum_balances (transact ?c OpClaim meagre) mod 2 ^ 256"
    by blast
  show ?thesis using 1 2 3 4 5 by blast
qed

section \<open>Blocks until the next claim\<close>

text \<open>
  Between a claim and a later block the difference of the heights does not wrap, and
  \<^verbatim>\<open>sub\<close> is only reached where it cannot fail: the accessor always returns.
\<close>

lemma unat_blockDiff:
  fixes h lc :: u256
  assumes "lc < h"
  shows "unat (h - lc - 1) = unat h - unat lc - 1"
proof -
  have 1: "unat (h - lc) = unat h - unat lc"
    using assms by (simp add: unat_sub less_imp_le)
  have "unat lc < unat h" using assms by (simp add: word_less_nat_alt)
  then have "1 \<le> h - lc" using 1 by (simp add: word_le_nat_alt)
  then have "unat (h - lc - 1) = unat (h - lc) - unat (1 :: u256)" by (rule unat_sub)
  then show ?thesis using 1 by simp
qed

lemma getBlocksTillClaimable_word:
  "getBlocksTillClaimable c a s =
     Inr (if lastClaimed s a = 0 then 0
          else if block_number c - lastClaimed s a - 1 < blocksPerClaim s
               then blocksPerClaim s - (block_number c - lastClaimed s a - 1) else 0)"
  by (simp add: getBlocksTillClaimable_def SafeMath_sub_def Let_def less_imp_le)

lemma unat_getBlocksTillClaimable:
  assumes "lastClaimed s a \<noteq> 0" and "getBlocksTillClaimable c a s = Inr r"
  shows "unat r = unat (blocksPerClaim s) - unat (block_number c - lastClaimed s a - 1)"
proof (cases "block_number c - lastClaimed s a - 1 < blocksPerClaim s")
  case True
  then have "r = blocksPerClaim s - (block_number c - lastClaimed s a - 1)"
    using assms by (simp add: getBlocksTillClaimable_word)
  then show ?thesis using True by (simp add: unat_sub less_imp_le)
next
  case False
  then have "r = 0" using assms by (simp add: getBlocksTillClaimable_word)
  moreover have "unat (blocksPerClaim s) \<le> unat (block_number c - lastClaimed s a - 1)"
    using False by (simp add: word_less_nat_alt)
  ultimately show ?thesis by simp
qed

text \<open>
  Claim C7. \<^verbatim>\<open>getBlocksTillClaimable\<close> returns 0 for an account that has never claimed
  (\<^verbatim>\<open>lastClaimed\<close> is 0), and otherwise the maximum of 0 and
  \<open>blocksPerClaim - (block.number - lastClaimed - 1)\<close>, the inner difference being the one of
  \<^verbatim>\<open>uint256\<close>; at every height after the claim (\<open>lastClaimed < block.number\<close>) that
  difference is the one of the integers. As the height advances past a claim the value
  does not increase, and it is 0 exactly from the height
  \<open>lastClaimed + blocksPerClaim + 1\<close> on.
\<close>

theorem getBlocksTillClaimable_value:
  "(lastClaimed s a = 0 \<longrightarrow> getBlocksTillClaimable c a s = Inr 0) \<and>
   (lastClaimed s a \<noteq> 0 \<longrightarrow>
      (\<exists>r. getBlocksTillClaimable c a s = Inr r \<and>
           uint r = max 0 (uint (blocksPerClaim s) - uint (block_number c - lastClaimed s a - 1)))) \<and>
   (lastClaimed s a \<noteq> 0 \<and> lastClaimed s a < block_number c \<longrightarrow>
      (\<exists>r. getBlocksTillClaimable c a s = Inr r \<and>
           uint r = max 0 (uint (blocksPerClaim s)
                             - (uint (block_number c) - uint (lastClaimed s a) - 1)) \<and>
           (r = 0 \<longleftrightarrow>
              unat (lastClaimed s a) + unat (blocksPerClaim s) + 1 \<le> unat (block_number c)))) \<and>
   (lastClaimed s a \<noteq> 0 \<and> lastClaimed s a < block_number c \<and>
    block_number c \<le> block_number c' \<longrightarrow>
      (\<exists>r r'. getBlocksTillClaimable c a s = Inr r \<and>
              getBlocksTillClaimable c' a s = Inr r' \<and> r' \<le> r))"
proof (intro conjI impI)
  assume "lastClaimed s a = 0"
  then show "getBlocksTillClaimable c a s = Inr 0"
    by (simp add: getBlocksTillClaimable_def)
next
  assume nz: "lastClaimed s a \<noteq> 0"
  obtain r where r: "getBlocksTillClaimable c a s = Inr r"
    by (simp add: getBlocksTillClaimable_word)
  have "unat r = unat (blocksPerClaim s) - unat (block_number c - lastClaimed s a - 1)"
    by (rule unat_getBlocksTillClaimable [OF nz r])
  then have "uint r = max 0 (uint (blocksPerClaim s) - uint (block_number c - lastClaimed s a - 1))"
    unfolding uint_nat by arith
  then show "\<exists>r. getBlocksTillClaimable c a s = Inr r \<and>
           uint r = max 0 (uint (blocksPerClaim s) - uint (block_number c - lastClaimed s a - 1))"
    using r by blast
next
  assume h: "lastClaimed s a \<noteq> 0 \<and> lastClaimed s a < block_number c"
  obtain r where r: "getBlocksTillClaimable c a s = Inr r"
    by (simp add: getBlocksTillClaimable_word)
  have u: "unat r = unat (blocksPerClaim s) - (unat (block_number c) - unat (lastClaimed s a) - 1)"
    using unat_getBlocksTillClaimable [of s a c r] r h by (simp add: unat_blockDiff)
  have lt: "unat (lastClaimed s a) < unat (block_number c)"
    using h by (simp add: word_less_nat_alt)
  have 1: "uint r = max 0 (uint (blocksPerClaim s)
                             - (uint (block_number c) - uint (lastClaimed s a) - 1))"
    using u lt unfolding uint_nat by arith
  have "(unat r = 0) = (unat (lastClaimed s a) + unat (blocksPerClaim s) + 1 \<le> unat (block_number c))"
    using u lt by arith
  then have 2: "(r = 0) = (unat (lastClaimed s a) + unat (blocksPerClaim s) + 1 \<le> unat (block_number c))"
    by (simp add: unat_eq_0)
  show "\<exists>r. getBlocksTillClaimable c a s = Inr r \<and>
           uint r = max 0 (uint (blocksPerClaim s)
                             - (uint (block_number c) - uint (lastClaimed s a) - 1)) \<and>
           (r = 0 \<longleftrightarrow>
              unat (lastClaimed s a) + unat (blocksPerClaim s) + 1 \<le> unat (block_number c))"
    using r 1 2 by blast
next
  assume h: "lastClaimed s a \<noteq> 0 \<and> lastClaimed s a < block_number c \<and>
    block_number c \<le> block_number c'"
  then have lt': "lastClaimed s a < block_number c'" by auto
  obtain r where r: "getBlocksTillClaimable c a s = Inr r"
    by (simp add: getBlocksTillClaimable_word)
  obtain r' where r': "getBlocksTillClaimable c' a s = Inr r'"
    by (simp add: getBlocksTillClaimable_word)
  have u: "unat r = unat (blocksPerClaim s) - (unat (block_number c) - unat (lastClaimed s a) - 1)"
    using unat_getBlocksTillClaimable [of s a c r] r h by (simp add: unat_blockDiff)
  have u': "unat r' = unat (blocksPerClaim s) - (unat (block_number c') - unat (lastClaimed s a) - 1)"
    using unat_getBlocksTillClaimable [of s a c' r'] r' h lt' by (simp add: unat_blockDiff)
  have "unat (block_number c) \<le> unat (block_number c')"
    using h by (simp add: word_le_nat_alt)
  then have "unat r' \<le> unat r" using u u' by arith
  then have "r' \<le> r" by (simp add: word_le_nat_alt)
  then show "\<exists>r r'. getBlocksTillClaimable c a s = Inr r \<and>
              getBlocksTillClaimable c' a s = Inr r' \<and> r' \<le> r"
    using r r' by blast
qed

theorem getBlocksTillClaimable_value_witness:
  "lastClaimed (transact (call_at 1000 1) OpClaim funded) 2 = 0 \<and>
   lastClaimed (transact (call_at 1000 1) OpClaim funded) 1 = 999 \<and>
   getBlocksTillClaimable (call_at 1050 1) 2
     (transact (call_at 1000 1) OpClaim funded) = Inr 0 \<and>
   getBlocksTillClaimable (call_at 1050 1) 1
     (transact (call_at 1000 1) OpClaim funded) = Inr 50 \<and>
   getBlocksTillClaimable (call_at 1100 1) 1
     (transact (call_at 1000 1) OpClaim funded) = Inr 0 \<and>
   (\<exists>r. getBlocksTillClaimable (call_at 1050 1) 1
          (transact (call_at 1000 1) OpClaim funded) = Inr r \<and>
        uint r = max 0 (100 - (1050 - 999 - 1)) \<and> r \<noteq> 0) \<and>
   (\<exists>r r'. getBlocksTillClaimable (call_at 1050 1) 1
          (transact (call_at 1000 1) OpClaim funded) = Inr r \<and>
        getBlocksTillClaimable (call_at 1100 1) 1
          (transact (call_at 1000 1) OpClaim funded) = Inr r' \<and>
        r' \<le> r)"
proof -
  let ?s = "transact (call_at 1000 1) OpClaim funded"
  let ?c = "call_at 1050 1"
  let ?d = "call_at 1100 1"
  have l2: "lastClaimed ?s 2 = 0"
    by (simp add: run_simps)
  have l1: "lastClaimed ?s 1 = 999"
    by (simp add: run_simps)
  have b: "blocksPerClaim ?s = 100"
    by (simp add: run_simps)
  have h: "lastClaimed ?s 1 \<noteq> 0 \<and> lastClaimed ?s 1 < block_number ?c \<and>
           block_number ?c \<le> block_number ?d"
    by (simp add: l1)
  have e1: "getBlocksTillClaimable ?c 1 ?s = Inr 50"
    by (simp add: getBlocksTillClaimable_def SafeMath_sub_def l1 b)
  have e2: "getBlocksTillClaimable ?d 1 ?s = Inr 0"
    by (simp add: getBlocksTillClaimable_def SafeMath_sub_def l1 b)
  from getBlocksTillClaimable_value [of ?s 2 ?c] l2
  have 1: "getBlocksTillClaimable ?c 2 ?s = Inr 0" by blast
  from getBlocksTillClaimable_value [of ?s 1 ?c ?d] h
  have 2: "\<exists>r. getBlocksTillClaimable ?c 1 ?s = Inr r \<and>
           uint r = max 0 (uint (blocksPerClaim ?s)
                             - (uint (block_number ?c) - uint (lastClaimed ?s 1) - 1)) \<and>
           (r = 0 \<longleftrightarrow>
              unat (lastClaimed ?s 1) + unat (blocksPerClaim ?s) + 1 \<le> unat (block_number ?c))"
    and 3: "\<exists>r r'. getBlocksTillClaimable ?c 1 ?s = Inr r \<and>
              getBlocksTillClaimable ?d 1 ?s = Inr r' \<and> r' \<le> r"
    by blast+
  from 2 have 4: "\<exists>r. getBlocksTillClaimable ?c 1 ?s = Inr r \<and>
        uint r = max 0 (100 - (1050 - 999 - 1)) \<and> r \<noteq> 0"
    by (simp add: l1 b)
  show ?thesis using l2 l1 1 e1 e2 4 3 by blast
qed

section \<open>Sending a message\<close>

text \<open>
  Claim C6. If the caller's balance is below \<^verbatim>\<open>tokensPerMessage\<close>, \<^verbatim>\<open>sendMessage\<close> fails at
  its \<^verbatim>\<open>require\<close> and the state, balances and histories included, is as before. Otherwise
  it appends \<open>block.number - 1\<close> to the caller's history, takes exactly
  \<^verbatim>\<open>tokensPerMessage\<close> from the caller's balance, adds exactly \<^verbatim>\<open>tokensPerMessage\<close> to the
  balance of the contract, and stores the given pointer as the latest message. The
  caller is an account other than the contract, which never calls itself; the addition
  to the reserve is the one of \<^verbatim>\<open>uint256\<close>, and it is the one of the naturals whenever the
  balances sum up to \<^verbatim>\<open>totalSupply\<close>.
\<close>

theorem sendMessage_effect:
  "(balances s (msg_sender c) < tokensPerMessage s \<longrightarrow>
      sendMessage c m s = Inl InsufficientFunds \<and> transact c (OpSendMessage m) s = s) \<and>
   (\<not> balances s (msg_sender c) < tokensPerMessage s \<longrightarrow>
      (\<exists>s'. sendMessage c m s = Inr s' \<and>
         messageHistory s' (msg_sender c) = messageHistory s (msg_sender c) @ [block_number c - 1] \<and>
         (\<forall>a. a \<noteq> msg_sender c \<longrightarrow> messageHistory s' a = messageHistory s a) \<and>
         latestMessage s' = m \<and>
         (msg_sender c \<noteq> this c \<longrightarrow>
            balances s' (msg_sender c) = balances s (msg_sender c) - tokensPerMessage s \<and>
            unat (balances s' (msg_sender c)) + unat (tokensPerMessage s)
              = unat (balances s (msg_sender c)) \<and>
            balances s' (this c) = balances s (this c) + tokensPerMessage s \<and>
            (supply_invariant s \<longrightarrow>
               unat (balances s' (this c)) = unat (balances s (this c)) + unat (tokensPerMessage s)) \<and>
            (\<forall>a. a \<noteq> msg_sender c \<and> a \<noteq> this c \<longrightarrow> balances s' a = balances s a))))"
proof (intro conjI impI)
  assume lt: "balances s (msg_sender c) < tokensPerMessage s"
  then show f: "sendMessage c m s = Inl InsufficientFunds"
    by (simp add: sendMessage_def not_le)
  then show "transact c (OpSendMessage m) s = s"
    by (simp add: transact_def)
next
  assume ge: "\<not> balances s (msg_sender c) < tokensPerMessage s"
  then have le: "tokensPerMessage s \<le> balances s (msg_sender c)" by simp
  let ?s' = "s \<lparr> messageHistory := (messageHistory s)(msg_sender c :=
                          messageHistory s (msg_sender c) @ [block_number c - 1]),
                  balances := ((balances s)(msg_sender c := balances s (msg_sender c) - tokensPerMessage s))
                       (this c := ((balances s)(msg_sender c := balances s (msg_sender c) - tokensPerMessage s)) (this c) + tokensPerMessage s),
                  latestMessage := m \<rparr>"
  have r: "sendMessage c m s = Inr ?s'"
    using le by (simp add: sendMessage_def Let_def)
  have u: "unat (balances s (msg_sender c) - tokensPerMessage s) + unat (tokensPerMessage s)
             = unat (balances s (msg_sender c))"
    using le by (simp add: unat_sub word_le_nat_alt)
  have inv: "msg_sender c \<noteq> this c \<Longrightarrow> supply_invariant s \<Longrightarrow>
       unat (balances s (this c) + tokensPerMessage s) = unat (balances s (this c)) + unat (tokensPerMessage s)"
  proof -
    assume ne: "msg_sender c \<noteq> this c" and si: "supply_invariant s"
    have "unat (balances s (this c)) + unat (balances s (msg_sender c)) \<le> sum_balances s"
      unfolding sum_balances_def using ne by (intro two_entries_le_sum) simp
    also have "\<dots> = unat (totalSupply s)" using si by (simp add: supply_invariant_def)
    also have "\<dots> < 2 ^ LENGTH(256)" by (rule unsigned_less)
    finally have "unat (balances s (this c)) + unat (tokensPerMessage s) < 2 ^ LENGTH(256)"
      using u by arith
    then show ?thesis by (simp only: unat_add_lem [THEN iffD1])
  qed
  have "messageHistory ?s' (msg_sender c) = messageHistory s (msg_sender c) @ [block_number c - 1] \<and>
         (\<forall>a. a \<noteq> msg_sender c \<longrightarrow> messageHistory ?s' a = messageHistory s a) \<and>
         latestMessage ?s' = m \<and>
         (msg_sender c \<noteq> this c \<longrightarrow>
            balances ?s' (msg_sender c) = balances s (msg_sender c) - tokensPerMessage s \<and>
            unat (balances ?s' (msg_sender c)) + unat (tokensPerMessage s)
              = unat (balances s (msg_sender c)) \<and>
            balances ?s' (this c) = balances s (this c) + tokensPerMessage s \<and>
            (supply_invariant s \<longrightarrow>
               unat (balances ?s' (this c)) = unat (balances s (this c)) + unat (tokensPerMessage s)) \<and>
            (\<forall>a. a \<noteq> msg_sender c \<and> a \<noteq> this c \<longrightarrow> balances ?s' a = balances s a))"
    using u inv by simp
  with r show "\<exists>s'. sendMessage c m s = Inr s' \<and>
         messageHistory s' (msg_sender c) = messageHistory s (msg_sender c) @ [block_number c - 1] \<and>
         (\<forall>a. a \<noteq> msg_sender c \<longrightarrow> messageHistory s' a = messageHistory s a) \<and>
         latestMessage s' = m \<and>
         (msg_sender c \<noteq> this c \<longrightarrow>
            balances s' (msg_sender c) = balances s (msg_sender c) - tokensPerMessage s \<and>
            unat (balances s' (msg_sender c)) + unat (tokensPerMessage s)
              = unat (balances s (msg_sender c)) \<and>
            balances s' (this c) = balances s (this c) + tokensPerMessage s \<and>
            (supply_invariant s \<longrightarrow>
               unat (balances s' (this c)) = unat (balances s (this c)) + unat (tokensPerMessage s)) \<and>
            (\<forall>a. a \<noteq> msg_sender c \<and> a \<noteq> this c \<longrightarrow> balances s' a = balances s a))"
    by blast
qed

theorem sendMessage_effect_witness:
  "sendMessage (call_at 1001 3) ''Qm'' (transact (call_at 1000 1) OpClaim funded)
     = Inl InsufficientFunds \<and>
   supply_invariant (transact (call_at 1000 1) OpClaim funded) \<and>
   balances (transact (call_at 1000 1) OpClaim funded) 1 = 12 \<and>
   balances (transact (call_at 1000 1) OpClaim funded) 100 = 988 \<and>
   (\<exists>s'. sendMessage (call_at 1001 1) ''Qm'' (transact (call_at 1000 1) OpClaim funded) = Inr s' \<and>
      messageHistory s' 1 = [1000] \<and> latestMessage s' = ''Qm'' \<and>
      balances s' 1 = 9 \<and> unat (balances s' 1) + 3 = 12 \<and>
      balances s' 100 = 991 \<and> unat (balances s' 100) = 988 + 3)"
proof -
  let ?s = "transact (call_at 1000 1) OpClaim funded"
  have b1: "balances ?s 1 = 12" by (simp add: run_simps)
  have b3: "balances ?s 3 = 0" by (simp add: run_simps)
  have b100: "balances ?s 100 = 988" by (simp add: run_simps)
  have t: "tokensPerMessage ?s = 3" by (simp add: run_simps)
  have mh: "messageHistory ?s 1 = []" by (simp add: run_simps)
  have si: "supply_invariant ?s"
    by (simp add: supply_invariant_def sum_balances_def run_simps sum_unat_fun_upd sum_unat_zero)
  have lt: "balances ?s (msg_sender (call_at 1001 3)) < tokensPerMessage ?s"
    by (simp add: b3 t)
  have ge: "\<not> balances ?s (msg_sender (call_at 1001 1)) < tokensPerMessage ?s"
    by (simp add: b1 t)
  have ne: "msg_sender (call_at 1001 1) \<noteq> this (call_at 1001 1)" by simp
  from sendMessage_effect [of ?s "call_at 1001 3" "''Qm''"] lt
  have 1: "sendMessage (call_at 1001 3) ''Qm'' ?s = Inl InsufficientFunds" by blast
  from sendMessage_effect [of ?s "call_at 1001 1" "''Qm''"] ge ne si
  have "\<exists>s'. sendMessage (call_at 1001 1) ''Qm'' ?s = Inr s' \<and>
         messageHistory s' (msg_sender (call_at 1001 1))
            = messageHistory ?s (msg_sender (call_at 1001 1)) @ [block_number (call_at 1001 1) - 1] \<and>
         latestMessage s' = ''Qm'' \<and>
         balances s' (msg_sender (call_at 1001 1))
            = balances ?s (msg_sender (call_at 1001 1)) - tokensPerMessage ?s \<and>
         unat (balances s' (msg_sender (call_at 1001 1))) + unat (tokensPerMessage ?s)
              = unat (balances ?s (msg_sender (call_at 1001 1))) \<and>
         balances s' (this (call_at 1001 1)) = balances ?s (this (call_at 1001 1)) + tokensPerMessage ?s \<and>
         unat (balances s' (this (call_at 1001 1)))
            = unat (balances ?s (this (call_at 1001 1))) + unat (tokensPerMessage ?s)"
    by blast
  then have 2: "\<exists>s'. sendMessage (call_at 1001 1) ''Qm'' ?s = Inr s' \<and>
      messageHistory s' 1 = [1000] \<and> latestMessage s' = ''Qm'' \<and>
      balances s' 1 = 9 \<and> unat (balances s' 1) + 3 = 12 \<and>
      balances s' 100 = 991 \<and> unat (balances s' 100) = 988 + 3"
    by (simp add: b1 b100 t mh)
  show ?thesis using 1 si b1 b100 2 by blast
qed

section \<open>The first claim of an account\<close>

text \<open>
  For an account whose \<^verbatim>\<open>lastClaimed\<close> is 0 the gate of \<^verbatim>\<open>claim\<close> compares
  \<open>block.number - 1\<close> with \<^verbatim>\<open>blocksPerClaim\<close>; past the gate the grant is \<^verbatim>\<open>dailyTokens\<close>.
\<close>

lemma claim_fresh:
  assumes "lastClaimed s (msg_sender c) = 0"
  shows "claim c s =
     (if block_number c - 1 < blocksPerClaim s then Inr (False, s)
      else Inr (True,
        s \<lparr> lastClaimed := (lastClaimed s)(msg_sender c := block_number c - 1),
            balances := ((balances s)(msg_sender c := balances s (msg_sender c) + dailyTokens s))
               (this c := ((balances s)(msg_sender c := balances s (msg_sender c) + dailyTokens s)) (this c)
                            - dailyTokens s),
            events := events s @ [Transfer (this c) (msg_sender c) (dailyTokens s)] \<rparr>))"
  using assms by (simp add: claim_def getClaimableTokens_def Let_def)

text \<open>
  Claim C2 says that the first claim of a fresh account succeeds and grants
  \<^verbatim>\<open>dailyTokens\<close> at every height. The code does not: for the fresh account 1 at height 50,
  with 100 blocks between claims and a reserve of 1000, \<^verbatim>\<open>getBlocksTillClaimable\<close> answers 0
  and \<^verbatim>\<open>getClaimableTokens\<close> answers 12, but \<^verbatim>\<open>claim\<close> returns \<^verbatim>\<open>false\<close> and grants nothing,
  since its gate does not set the never-claimed account apart as the two accessors do.
\<close>

theorem first_claim_refused:
  "lastClaimed funded 1 = 0 \<and> balances funded 100 = 1000 \<and> blocksPerClaim funded = 100 \<and>
   getBlocksTillClaimable (call_at 50 1) 1 funded = Inr 0 \<and>
   getClaimableTokens (call_at 50 1) 1 funded = Inr 12 \<and>
   claim (call_at 50 1) funded = Inr (False, funded) \<and>
   balances (transact (call_at 50 1) OpClaim funded) 1 = 0"
  by (simp add: run_simps getBlocksTillClaimable_def)

section \<open>The reserve\<close>

text \<open>
  \<^verbatim>\<open>claim\<close> has no guard on the balance of the contract: the only way it is abandoned is
  the division by a \<^verbatim>\<open>blocksPerClaim\<close> of zero. Where the reserve covers the grant, and
  in \<^verbatim>\<open>sendMessage\<close>, which checks the caller's balance first, the balances keep summing
  up to \<^verbatim>\<open>totalSupply\<close>.
\<close>

lemma claim_error: "claim c s = Inl e \<Longrightarrow> e = DivisionByZero \<and> blocksPerClaim s = 0"
  by (auto simp: claim_def getClaimableTokens_def SafeMath_div_def Let_def
      split: if_splits sum.splits)

lemma claim_keeps_supply_invariant:
  assumes ok: "claim c s = Inr (True, s')"
    and v: "getClaimableTokens c (msg_sender c) s = Inr val"
    and covered: "val \<le> balances s (this c)"
    and ne: "msg_sender c \<noteq> this c"
    and inv: "supply_invariant s"
  shows "supply_invariant s'"
proof -
  from claim_True [OF ok] v have
    b: "balances s' = ((balances s)(msg_sender c := balances s (msg_sender c) + val))
                       (this c := balances s (this c) - val)"
    and t: "totalSupply s' = totalSupply s"
    using ne by auto
  have "unat (balances s (msg_sender c)) + unat (balances s (this c)) \<le> sum_unat (balances s)"
    using ne by (rule two_entries_le_sum)
  also have "\<dots> = unat (totalSupply s)"
    using inv by (simp add: supply_invariant_def sum_balances_def)
  also have "\<dots> < 2 ^ LENGTH(256)" by (rule unsigned_less)
  finally have bound: "unat (balances s (msg_sender c)) + unat (balances s (this c)) < 2 ^ LENGTH(256)" .
  have vle: "unat val \<le> unat (balances s (this c))"
    using covered by (simp add: word_le_nat_alt)
  have "unat (balances s (msg_sender c)) + unat val < 2 ^ LENGTH(256)"
    using bound vle by arith
  then have up: "unat (balances s (msg_sender c) + val) = unat (balances s (msg_sender c)) + unat val"
    by (simp only: unat_add_lem [THEN iffD1])
  have down: "unat (balances s (this c) - val) = unat (balances s (this c)) - unat val"
    using covered by (simp add: unat_sub)
  have le2: "unat (balances s (msg_sender c)) + unat (balances s (this c)) \<le> sum_unat (balances s)"
    using ne by (rule two_entries_le_sum)
  have "sum_unat (balances s') = sum_unat (balances s)"
    using ne up down vle le2 by (simp add: b sum_unat_fun_upd)
  then show ?thesis using inv t by (simp add: supply_invariant_def sum_balances_def)
qed

lemma sendMessage_keeps_supply_invariant:
  assumes ok: "sendMessage c m s = Inr s'"
    and ne: "msg_sender c \<noteq> this c"
    and inv: "supply_invariant s"
  shows "supply_invariant s'"
proof -
  from sendMessage_Inr [OF ok] have
    le: "tokensPerMessage s \<le> balances s (msg_sender c)"
    and b: "balances s' = ((balances s)(msg_sender c := balances s (msg_sender c) - tokensPerMessage s))
                       (this c := balances s (this c) + tokensPerMessage s)"
    and t: "totalSupply s' = totalSupply s"
    using ne by auto
  have le2: "unat (balances s (msg_sender c)) + unat (balances s (this c)) \<le> sum_unat (balances s)"
    using ne by (rule two_entries_le_sum)
  also have "\<dots> = unat (totalSupply s)"
    using inv by (simp add: supply_invariant_def sum_balances_def)
  also have "\<dots> < 2 ^ LENGTH(256)" by (rule unsigned_less)
  finally have bound: "unat (balances s (msg_sender c)) + unat (balances s (this c)) < 2 ^ LENGTH(256)" .
  have vle: "unat (tokensPerMessage s) \<le> unat (balances s (msg_sender c))"
    using le by (simp add: word_le_nat_alt)
  have "unat (balances s (this c)) + unat (tokensPerMessage s) < 2 ^ LENGTH(256)"
    using bound vle by arith
  then have up: "unat (balances s (this c) + tokensPerMessage s)
                   = unat (balances s (this c)) + unat (tokensPerMessage s)"
    by (simp only: unat_add_lem [THEN iffD1])
  have down: "unat (balances s (msg_sender c) - tokensPerMessage s)
                = unat (balances s (msg_sender c)) - unat (tokensPerMessage s)"
    using le by (simp add: unat_sub)
  have "sum_unat (balances s') = sum_unat (balances s)"
    using ne up down vle le2 by (simp add: b sum_unat_fun_upd)
  then show ?thesis using inv t by (simp add: supply_invariant_def sum_balances_def)
qed

text \<open>
  Claim C3 says that \<^verbatim>\<open>claim\<close> fails when the grant exceeds the reserve, and that the
  reserve never goes below zero. The code does not check: with a reserve of 5 and a
  grant of 12, \<^verbatim>\<open>claim\<close> returns \<^verbatim>\<open>true\<close>, credits the caller with 12, and the
  unchecked \<^verbatim>\<open>balances[this] -= value\<close> wraps the reserve around to \<open>2 ^ 256 - 7\<close>.
\<close>

theorem claim_overdraws_reserve:
  "balances meagre 100 = 5 \<and> lastClaimed meagre 1 = 0 \<and>
   getClaimableTokens (call_at 1000 1) 1 meagre = Inr 12 \<and>
   map_sum id fst (claim (call_at 1000 1) meagre) = Inr True \<and>
   balances (transact (call_at 1000 1) OpClaim meagre) 1 = 12 \<and>
   balances (transact (call_at 1000 1) OpClaim meagre) 100 = 5 - 12 \<and>
   unat (balances (transact (call_at 1000 1) OpClaim meagre) 100) = 2 ^ 256 - 7"
  by (simp add: run_simps)

text \<open>
  Claim C1 says that in every reachable state the balances, the reserve among them, sum
  up to \<^verbatim>\<open>totalSupply\<close>, and that this sum never changes. The code breaks both: on the
  ledger with initial amount 5, where the invariant holds, the claim of account 1 at
  height 1000 leaves balances that sum up to \<open>2 ^ 256 + 5\<close> against a \<^verbatim>\<open>totalSupply\<close> of
  5; and a later call of \<^verbatim>\<open>UsableToken\<close>, open to every caller, sets \<^verbatim>\<open>totalSupply\<close> anew.
\<close>

theorem supply_invariant_broken:
  "supply_invariant meagre \<and> sum_balances meagre = 5 \<and>
   map_sum id fst (claim (call_at 1000 1) meagre) = Inr True \<and>
   totalSupply (transact (call_at 1000 1) OpClaim meagre) = 5 \<and>
   sum_balances (transact (call_at 1000 1) OpClaim meagre) = 2 ^ 256 + 5 \<and>
   \<not> supply_invariant (transact (call_at 1000 1) OpClaim meagre) \<and>
   totalSupply funded = 1000 \<and>
   totalSupply (transact (call_at 2000 7) (OpUsableToken 7 [] 0 []) funded) = 7"
  by (simp add: run_simps supply_invariant_def sum_balances_def sum_unat_fun_upd sum_unat_zero)

section \<open>The owner\<close>

text \<open>The four guarded or unrelated functions leave the owner alone.\<close>

lemma owner_kept:
  "owner (transact c (OpChangeBlocksPerClaim b) s) = owner s"
  "owner (transact c OpClaim s) = owner s"
  "owner (transact c (OpSendMessage m) s) = owner s"
  "owner (transact c (OpSendHash h) s) = owner s"
  by (auto simp: transact_def changeBlocksPerClaim_def claim_def sendMessage_def sendHash_def
      Let_def split: sum.splits if_splits)

text \<open>
  Claim C4 says that the owner is set once, at creation, and that no call can change it
  afterwards. The code lets every caller change it: \<^verbatim>\<open>UsableToken\<close> is an ordinary public
  function, so after account 2 has become the owner, a call of it by account 7 makes 7
  the owner; \<^verbatim>\<open>changeBlocksPerClaim\<close> then refuses 2 and obeys 7.
\<close>

theorem owner_replaced:
  "owner funded = 2 \<and>
   owner (transact (call_at 2000 7) (OpUsableToken 0 [] 0 []) funded) = 7 \<and>
   changeBlocksPerClaim (call_at 2001 2) 0
       (transact (call_at 2000 7) (OpUsableToken 0 [] 0 []) funded) = Inl Unauthorized \<and>
   map_sum id blocksPerClaim (changeBlocksPerClaim (call_at 2001 7) 0
       (transact (call_at 2000 7) (OpUsableToken 0 [] 0 []) funded)) = Inr 0"
  by (simp add: run_simps)

section \<open>Changing the cooldown\<close>

text \<open>
  \<^verbatim>\<open>changeBlocksPerClaim\<close> obeys the owner and nobody else, and it takes every value,
  0 included.
\<close>

lemma changeBlocksPerClaim_guard:
  "msg_sender c \<noteq> owner s \<Longrightarrow>
     changeBlocksPerClaim c n s = Inl Unauthorized \<and>
     transact c (OpChangeBlocksPerClaim n) s = s"
  "msg_sender c = owner s \<Longrightarrow>
     changeBlocksPerClaim c n s = Inr (s \<lparr> blocksPerClaim := n \<rparr>) \<and>
     getBlocksPerClaim (transact c (OpChangeBlocksPerClaim n) s) = n"
  by (simp_all add: changeBlocksPerClaim_def transact_def getBlocksPerClaim_def)

text \<open>
  With a cooldown of 0 the accessor answers 0 for every account and height, and the gate
  of \<^verbatim>\<open>claim\<close> never closes. What \<^verbatim>\<open>claim\<close> does past the gate depends on \<^verbatim>\<open>lastClaimed\<close>: an
  account for which it is 0 is granted \<^verbatim>\<open>dailyTokens\<close>; for every other account
  \<^verbatim>\<open>getClaimableTokens\<close> divides by \<^verbatim>\<open>blocksPerClaim\<close>.
\<close>

lemma zero_cooldown_gate_open:
  assumes "blocksPerClaim s = 0"
  shows "getBlocksTillClaimable c a s = Inr 0"
    and "claim c s \<noteq> Inr (False, s')"
  using assms by (simp_all add: getBlocksTillClaimable_word claim_def Let_def split: sum.splits)

lemma zero_cooldown_first_claim:
  assumes "blocksPerClaim s = 0" and "lastClaimed s (msg_sender c) = 0"
  shows "\<exists>s'. claim c s = Inr (True, s') \<and>
               lastClaimed s' (msg_sender c) = block_number c - 1 \<and>
               (msg_sender c \<noteq> this c \<longrightarrow>
                  balances s' (msg_sender c) = balances s (msg_sender c) + dailyTokens s)"
  using assms by (simp add: claim_fresh)

lemma zero_cooldown_division:
  assumes "blocksPerClaim s = 0" and "lastClaimed s (msg_sender c) \<noteq> 0"
  shows "getClaimableTokens c (msg_sender c) s
           = map_sum id (\<lambda>multiples. multiples * dailyTokens s)
               (SafeMath_div (block_number c - lastClaimed s (msg_sender c) - 1) 0)"
    and "claim c s = Inl DivisionByZero"
    and "transact c OpClaim s = s"
  using assms
  by (simp_all add: claim_def getClaimableTokens_def SafeMath_div_def transact_def)


end
